theory Spec2Isabelle
  imports Main
begin

section \<open>JavaScript values and promises\<close>

text \<open>
  The values that flow through \<^verbatim>\<open>persist.js\<close> and \<^verbatim>\<open>lib/image.js\<close>:
  \<^verbatim>\<open>undefined\<close>, \<^verbatim>\<open>null\<close>, booleans, numbers, strings, a stored row
  \<^verbatim>\<open>{key, value}\<close>, an \<^verbatim>\<open>Error\<close> object wrapping a value, and the image
  object \<^verbatim>\<open>_this\<close>. Numbers are the integers a double holds exactly (timestamps in
  milliseconds, pixel sizes, row counts).
\<close>

datatype jsval =
    Undefined
  | Null
  | JBool bool
  | Num int
  | Str string
  | Row string jsval
  | ErrorObj jsval
  | This

text \<open>A Q deferred: pending until the first \<^verbatim>\<open>resolve\<close> or \<^verbatim>\<open>reject\<close>; later calls are ignored.\<close>

datatype promise = Pending | Resolved jsval | Rejected jsval

definition settle :: "promise \<Rightarrow> promise \<Rightarrow> promise" where
  "settle x p = (if p = Pending then x else p)"

text \<open>The outcome of a promise returned by an external collaborator (S3, the manipulator).\<close>

datatype 'a outcome = Fulfilled 'a | Failed jsval

text \<open>\<^verbatim>\<open>!v\<close> is true exactly for the falsy values.\<close>

fun falsy :: "jsval \<Rightarrow> bool" where
  "falsy Undefined = True"
| "falsy Null = True"
| "falsy (JBool b) = (\<not> b)"
| "falsy (Num n) = (n = 0)"
| "falsy (Str s) = (s = [])"
| "falsy (Row k v) = False"
| "falsy (ErrorObj v) = False"
| "falsy This = False"

subsection \<open>Number to string and \<^verbatim>\<open>parseInt(v, 10)\<close>\<close>

function digits :: "nat \<Rightarrow> string" where
  "digits n = (if n < 10 then [''0123456789'' ! n]
               else digits (n div 10) @ [''0123456789'' ! (n mod 10)])"
  by pat_completeness auto
termination
  by (relation "measure id") auto

declare digits.simps [simp del]

definition num_str :: "int \<Rightarrow> string" where
  "num_str n = (if n < 0 then CHR ''-'' # digits (nat (- n)) else digits (nat n))"

definition is_ws :: "char \<Rightarrow> bool" where
  "is_ws c = ((of_char c :: nat) \<in> {9, 10, 11, 12, 13, 32})"

definition is_digit :: "char \<Rightarrow> bool" where
  "is_digit c = (48 \<le> (of_char c :: nat) \<and> (of_char c :: nat) \<le> 57)"

definition digits_val :: "string \<Rightarrow> nat" where
  "digits_val s = foldl (\<lambda>a c. 10 * a + (of_char c - 48)) 0 s"

text \<open>
  \<^verbatim>\<open>parseInt\<close> on a string: leading white space is skipped, one sign is read, then the
  longest run of decimal digits; no digit at all gives \<^verbatim>\<open>NaN\<close>, here \<open>None\<close>.
\<close>

definition parseInt_str :: "string \<Rightarrow> int option" where
  "parseInt_str s =
     (let t = dropWhile is_ws s;
          neg = (case t of [] \<Rightarrow> False | c # r \<Rightarrow> c = CHR ''-'');
          u = (case t of [] \<Rightarrow> [] | c # r \<Rightarrow> if c = CHR ''-'' \<or> c = CHR ''+'' then r else t);
          z = takeWhile is_digit u
      in if z = [] then None
         else Some (if neg then - int (digits_val z) else int (digits_val z)))"

text \<open>
  \<^verbatim>\<open>parseInt(v, 10)\<close> converts its argument to a string first. An integer prints as
  its decimal digits and reads back as itself; \<^verbatim>\<open>undefined\<close>, \<^verbatim>\<open>null\<close>, booleans
  and objects print as words and give \<^verbatim>\<open>NaN\<close>.
\<close>

fun parseInt :: "jsval \<Rightarrow> int option" where
  "parseInt (Num n) = Some n"
| "parseInt (Str s) = parseInt_str s"
| "parseInt v = None"

text \<open>\<^verbatim>\<open>parseInt(v, 10) < t\<close>: every comparison with \<^verbatim>\<open>NaN\<close> is false.\<close>

definition parseInt_less :: "jsval \<Rightarrow> int \<Rightarrow> bool" where
  "parseInt_less v t = (case parseInt v of None \<Rightarrow> False | Some n \<Rightarrow> n < t)"

section \<open>The store: a Mongo collection of rows\<close>

text \<open>
  \<^verbatim>\<open>_store = _db.collection('images')\<close> holds documents \<^verbatim>\<open>{key, value}\<close>. The source
  creates no unique index, so the collection is a list of rows in which a key may occur more
  than once; the driver's generated \<^verbatim>\<open>_id\<close> field is left out.
\<close>

record doc =
  key :: string
  val :: jsval

type_synonym err = string

text \<open>\<^verbatim>\<open>findOne({key: k})\<close>: the first row with that key.\<close>

definition findOne :: "string \<Rightarrow> doc list \<Rightarrow> doc option" where
  "findOne k docs = find (\<lambda>d. key d = k) docs"

text \<open>\<^verbatim>\<open>update({key: k}, {$set: {value: v}}, {upsert: true})\<close>: the first matching row is
  updated; with no match a row is inserted.\<close>

fun upsert :: "string \<Rightarrow> jsval \<Rightarrow> doc list \<Rightarrow> doc list" where
  "upsert k v [] = [\<lparr>key = k, val = v\<rparr>]"
| "upsert k v (d # ds) = (if key d = k then d\<lparr>val := v\<rparr> # ds else d # upsert k v ds)"

text \<open>\<^verbatim>\<open>insert(row)\<close> appends; \<^verbatim>\<open>remove({key: {$in: ks}})\<close> drops every matching row.\<close>

definition insert_row :: "doc \<Rightarrow> doc list \<Rightarrow> doc list" where
  "insert_row d docs = docs @ [d]"

definition remove_keys :: "string list \<Rightarrow> doc list \<Rightarrow> doc list" where
  "remove_keys ks docs = filter (\<lambda>d. key d \<notin> set ks) docs"

section \<open>Persist\<close>

text \<open>
  \<^verbatim>\<open>_interval = _config.interval || 200\<close> and \<^verbatim>\<open>_waitTimeout = _config.waitTimeout || 10 * _interval\<close>
  are evaluated once, when the module is loaded and \<^verbatim>\<open>_config\<close> is still \<^verbatim>\<open>{}\<close>.
\<close>

definition interval :: int where
  "interval = 200"

definition waitTimeout :: int where
  "waitTimeout = 10 * interval"

text \<open>
  Every driver call hands its callback a pair \<^verbatim>\<open>(err, result)\<close>. The \<open>err option\<close>
  argument of each operation below is that \<^verbatim>\<open>err\<close>: \<open>None\<close> when the call went
  through, \<open>Some e\<close> when the driver failed (the collection is then unchanged). Each
  operation returns the settled promise and the collection afterwards.
\<close>

definition set_kv :: "err option \<Rightarrow> string \<Rightarrow> jsval \<Rightarrow> doc list \<Rightarrow> promise \<times> doc list" where
  "set_kv e k v docs =
     (case e of
        Some m \<Rightarrow> (Rejected (ErrorObj (Str m)), docs)
      | None \<Rightarrow> (Resolved (Num 1), upsert k v docs))"

text \<open>
  \<^verbatim>\<open>setnx\<close> is two driver calls. The callback of \<^verbatim>\<open>findOne\<close> rejects on an error,
  resolves \<^verbatim>\<open>true\<close> when a row was found, and otherwise issues the \<^verbatim>\<open>insert\<close>, whose
  callback resolves with \<^verbatim>\<open>result[0]\<close>, the inserted row.
\<close>

datatype setnx_find = Settled promise | DoInsert

definition setnx_find :: "err option \<Rightarrow> string \<Rightarrow> doc list \<Rightarrow> setnx_find" where
  "setnx_find e k docs =
     (case e of
        Some m \<Rightarrow> Settled (Rejected (Str ''Error setting key''))
      | None \<Rightarrow>
          (case findOne k docs of
             Some d \<Rightarrow> Settled (Resolved (JBool True))
           | None \<Rightarrow> DoInsert))"

definition setnx_insert :: "err option \<Rightarrow> string \<Rightarrow> jsval \<Rightarrow> doc list \<Rightarrow> promise \<times> doc list" where
  "setnx_insert e k v docs =
     (case e of
        Some m \<Rightarrow> (Rejected (Str ''Error setting key''), docs)
      | None \<Rightarrow> (Resolved (Row k v), insert_row \<lparr>key = k, val = v\<rparr> docs))"

text \<open>\<^verbatim>\<open>setnx\<close> run with no other store call between its two driver calls.\<close>

definition setnx :: "err option \<Rightarrow> err option \<Rightarrow> string \<Rightarrow> jsval \<Rightarrow> doc list \<Rightarrow> promise \<times> doc list" where
  "setnx fe ie k v docs =
     (case setnx_find fe k docs of
        Settled p \<Rightarrow> (p, docs)
      | DoInsert \<Rightarrow> setnx_insert ie k v docs)"

definition get :: "err option \<Rightarrow> string \<Rightarrow> doc list \<Rightarrow> promise" where
  "get e k docs =
     (case e of
        Some m \<Rightarrow> Rejected (ErrorObj (Str m))
      | None \<Rightarrow>
          (case findOne k docs of
             Some d \<Rightarrow> Resolved (val d)
           | None \<Rightarrow> Resolved Null))"

text \<open>\<^verbatim>\<open>del\<close> takes one key or a list of keys; it resolves with the number of rows removed.\<close>

definition del :: "err option \<Rightarrow> string list \<Rightarrow> doc list \<Rightarrow> promise \<times> doc list" where
  "del e ks docs =
     (case e of
        Some m \<Rightarrow> (Rejected (ErrorObj (Str m)), docs)
      | None \<Rightarrow>
          (Resolved (Num (int (length docs) - int (length (remove_keys ks docs)))),
           remove_keys ks docs))"

text \<open>\<^verbatim>\<open>setLock\<close>: \<^verbatim>\<open>timeout = Date.now() + _waitTimeout; return this.setnx(key, timeout)\<close>.\<close>

definition setLock :: "err option \<Rightarrow> err option \<Rightarrow> int \<Rightarrow> string \<Rightarrow> doc list \<Rightarrow> promise \<times> doc list" where
  "setLock fe ie now k docs = setnx fe ie k (Num (now + waitTimeout)) docs"

text \<open>What other workers write to the collection between two reads of this worker.\<close>

datatype store_write = WSet string jsval | WInsert string jsval | WDel "string list"

fun apply_write :: "store_write \<Rightarrow> doc list \<Rightarrow> doc list" where
  "apply_write (WSet k v) docs = upsert k v docs"
| "apply_write (WInsert k v) docs = insert_row \<lparr>key = k, val = v\<rparr> docs"
| "apply_write (WDel ks) docs = remove_keys ks docs"

definition apply_writes :: "store_write list \<Rightarrow> doc list \<Rightarrow> doc list" where
  "apply_writes ws docs = foldl (\<lambda>d w. apply_write w d) docs ws"

subsection \<open>\<^verbatim>\<open>lock\<close>\<close>

text \<open>
  One firing of the interval timer: what the other workers wrote since the previous read,
  the \<^verbatim>\<open>err\<close> of this firing's \<^verbatim>\<open>findOne\<close>, and the value of \<^verbatim>\<open>Date.now()\<close> in
  its callback.
\<close>

record tick =
  others :: "store_write list"
  read_err :: "err option"
  at :: int

text \<open>\<^verbatim>\<open>lockTimer\<close>: not created, running with its period, or cancelled by \<^verbatim>\<open>clearInterval\<close>.\<close>

datatype timer = NoTimer | Running int | Cleared

text \<open>
  The state of one \<^verbatim>\<open>lock(key)\<close> call: its deferred, the closure variables
  \<^verbatim>\<open>lockTimer\<close> and \<^verbatim>\<open>expiration\<close>, the collection, and the collection as it was when
  the deferred settled (where the caller's \<^verbatim>\<open>then\<close>/\<^verbatim>\<open>catch\<close> continues). \<open>fired\<close>
  counts the timer callbacks that ran, \<open>late\<close> those that ran with the deferred already
  settled.
\<close>

record lock_state =
  deferred :: promise
  lockTimer :: timer
  expiration :: int
  fired :: nat
  late :: nat
  store :: "doc list"
  settled_store :: "doc list"

definition settle_lock :: "promise \<Rightarrow> lock_state \<Rightarrow> lock_state" where
  "settle_lock x s =
     (if deferred s = Pending then s\<lparr>deferred := x, settled_store := store s\<rparr> else s)"

definition clearInterval :: "lock_state \<Rightarrow> lock_state" where
  "clearInterval s = (case lockTimer s of Running p \<Rightarrow> s\<lparr>lockTimer := Cleared\<rparr> | _ \<Rightarrow> s)"

text \<open>
  The first read. \<^verbatim>\<open>instance.get(key).catch(function(err) { deferred.reject(err) })\<close>
  turns a failed read into a promise fulfilled with \<^verbatim>\<open>undefined\<close>, which
  \<^verbatim>\<open>.done(function(result) {...})\<close> then receives as \<^verbatim>\<open>result\<close>.
\<close>

definition lock_first :: "err option \<Rightarrow> int \<Rightarrow> string \<Rightarrow> doc list \<Rightarrow> lock_state" where
  "lock_first e now k docs =
     (let s0 = \<lparr>deferred = Pending, lockTimer = NoTimer, expiration = 0, fired = 0, late = 0,
                store = docs, settled_store = docs\<rparr>;
          p = get e k docs;
          s1 = (case p of Rejected x \<Rightarrow> settle_lock (Rejected x) s0 | _ \<Rightarrow> s0);
          result = (case p of Resolved v \<Rightarrow> v | _ \<Rightarrow> Undefined)
      in if result \<noteq> Null then
           if parseInt_less result now then settle_lock (Rejected (Str ''lock expired'')) s1
           else s1\<lparr>expiration := now + waitTimeout, lockTimer := Running interval\<rparr>
         else settle_lock (Rejected (Str ''no lock'')) s1)"

text \<open>
  The timer callback. A failed re-read runs the \<^verbatim>\<open>catch\<close> handler and then, with
  \<^verbatim>\<open>_result\<close> undefined, the first branch of the \<^verbatim>\<open>done\<close> handler as well.
\<close>

definition on_tick :: "string \<Rightarrow> tick \<Rightarrow> lock_state \<Rightarrow> lock_state" where
  "on_tick k t s =
     (let s0 = s\<lparr>store := apply_writes (others t) (store s),
                 fired := Suc (fired s),
                 late := (if deferred s = Pending then late s else Suc (late s))\<rparr>
      in case get (read_err t) k (store s0) of
           Rejected x \<Rightarrow>
             settle_lock (Resolved (Str ''lock absent''))
               (clearInterval (settle_lock (Rejected (Str ''lock error'')) (clearInterval s0)))
         | Resolved r \<Rightarrow>
             if falsy r then settle_lock (Resolved (Str ''lock absent'')) (clearInterval s0)
             else if at t > expiration s0
               then settle_lock (Rejected (Str ''lock timeout'')) (clearInterval s0)
               else s0
         | Pending \<Rightarrow> s0)"

text \<open>\<^verbatim>\<open>setInterval\<close>: the callback runs once per firing for as long as the timer is not cancelled.\<close>

fun run_timer :: "string \<Rightarrow> tick list \<Rightarrow> lock_state \<Rightarrow> lock_state" where
  "run_timer k [] s = s"
| "run_timer k (t # ts) s =
     (case lockTimer s of
        Running p \<Rightarrow> run_timer k ts (on_tick k t s)
      | _ \<Rightarrow> s)"

definition lock :: "err option \<Rightarrow> int \<Rightarrow> tick list \<Rightarrow> string \<Rightarrow> doc list \<Rightarrow> lock_state" where
  "lock e now ticks k docs = run_timer k ticks (lock_first e now k docs)"

subsection \<open>Concurrent \<^verbatim>\<open>setnx\<close> calls\<close>

text \<open>
  Node runs one callback at a time, so two \<^verbatim>\<open>setnx\<close> calls interleave at their driver
  calls: each call is at its \<^verbatim>\<open>findOne\<close>, at its \<^verbatim>\<open>insert\<close>, or has settled. A schedule
  names, step by step, the call whose next driver call the store serves.
\<close>

datatype pc = AtFind | AtInsert | Finished promise

record call =
  ckey :: string
  cval :: jsval
  cpc :: pc

definition step_call :: "call \<Rightarrow> doc list \<Rightarrow> call \<times> doc list" where
  "step_call c docs =
     (case cpc c of
        AtFind \<Rightarrow>
          (case setnx_find None (ckey c) docs of
             Settled p \<Rightarrow> (c\<lparr>cpc := Finished p\<rparr>, docs)
           | DoInsert \<Rightarrow> (c\<lparr>cpc := AtInsert\<rparr>, docs))
      | AtInsert \<Rightarrow>
          (case setnx_insert None (ckey c) (cval c) docs of
             (p, docs') \<Rightarrow> (c\<lparr>cpc := Finished p\<rparr>, docs'))
      | Finished p \<Rightarrow> (c, docs))"

fun schedule :: "nat list \<Rightarrow> call list \<times> doc list \<Rightarrow> call list \<times> doc list" where
  "schedule [] st = st"
| "schedule (n # ns) (cs, docs) =
     (if n < length cs
      then (case step_call (cs ! n) docs of (c', docs') \<Rightarrow> schedule ns (cs[n := c'], docs'))
      else schedule ns (cs, docs))"

definition start_setnx :: "string \<Rightarrow> jsval \<Rightarrow> call" where
  "start_setnx k v = \<lparr>ckey = k, cval = v, cpc = AtFind\<rparr>"

section \<open>Img\<close>

text \<open>The value of a transform option, a number or a string, and its conversion by \<^verbatim>\<open>'' + v\<close>.\<close>

datatype optval = NumV int | StrV string

fun to_str :: "optval \<Rightarrow> string" where
  "to_str (NumV n) = num_str n"
| "to_str (StrV s) = s"

text \<open>\<^verbatim>\<open>options.hasOwnProperty(f)\<close> holds exactly when the field is \<open>Some\<close>.\<close>

record options =
  action :: "string option"
  width :: "optval option"
  height :: "optval option"
  cropX :: "optval option"
  cropY :: "optval option"

text \<open>The result of \<^verbatim>\<open>parser(request)\<close>.\<close>

record parsed =
  p_dir :: string
  p_filename :: string
  p_ext :: string
  p_options :: options
  p_json :: bool

record img =
  redisNamespace :: string
  env :: char
  dir :: string
  file' :: string
  ext :: string
  mime :: string
  options :: options
  json :: bool
  uuid :: string

definition toLowerCase :: "string \<Rightarrow> string" where
  "toLowerCase s =
     map (\<lambda>c. if 65 \<le> (of_char c :: nat) \<and> (of_char c :: nat) \<le> 90
               then char_of ((of_char c :: nat) + 32) else c) s"

definition parseFormat :: "string \<Rightarrow> string" where
  "parseFormat format =
     (let f = toLowerCase format
      in if f = ''jpeg'' \<or> f = ''jpg'' then ''image/jpeg''
         else if f = ''png'' then ''image/png''
         else if f = ''gif'' then ''image/gif''
         else ''application/octet-stream'')"

text \<open>
  The constructor, for the fields the keys and paths are built from. \<open>md5\<close> is the hex digest
  of \<^verbatim>\<open>crypto\<close>; \<open>ns\<close> is \<^verbatim>\<open>process.env.REDIS_NAMESPACE || 'img-server'\<close> and \<open>e\<close> the
  first character of \<^verbatim>\<open>process.env.NODE_ENV || 'development'\<close>.
\<close>

definition new_Img :: "(string \<Rightarrow> string) \<Rightarrow> string \<Rightarrow> char \<Rightarrow> parsed \<Rightarrow> img" where
  "new_Img md5 ns e p =
     \<lparr>redisNamespace = ns, env = e, dir = p_dir p, file' = p_filename p, ext = p_ext p,
      mime = parseFormat (p_ext p), options = p_options p, json = p_json p,
      uuid = md5 (p_dir p @ p_filename p)\<rparr>"

text \<open>\<^verbatim>\<open>_optionsString\<close>. \<^verbatim>\<open>action[0]\<close> of the empty string is \<^verbatim>\<open>undefined\<close>.\<close>

definition optionsString :: "img \<Rightarrow> string" where
  "optionsString i =
     (if json i then []
      else case action (options i) of
        None \<Rightarrow> []
      | Some a \<Rightarrow>
          (let str = ''_a'' @ (case a of [] \<Rightarrow> ''undefined'' | c # cs \<Rightarrow> [c]);
               str = (case width (options i) of None \<Rightarrow> str | Some v \<Rightarrow> str @ ''_w'' @ to_str v);
               str = (case height (options i) of None \<Rightarrow> str | Some v \<Rightarrow> str @ ''_h'' @ to_str v);
               str = (case cropX (options i) of None \<Rightarrow> str | Some v \<Rightarrow> str @ ''_cx'' @ to_str v);
               str = (case cropY (options i) of None \<Rightarrow> str | Some v \<Rightarrow> str @ ''_cy'' @ to_str v)
           in str))"

definition imgKey :: "img \<Rightarrow> string" where
  "imgKey i = redisNamespace i @ '':'' @ [env i] @ '':'' @ uuid i"

definition origKey :: "img \<Rightarrow> string" where
  "origKey i = imgKey i @ '':orig''"

definition versionKey :: "img \<Rightarrow> string" where
  "versionKey i =
     (if action (options i) = None then imgKey i else imgKey i @ optionsString i)"

definition lockKey :: "img \<Rightarrow> string" where
  "lockKey i =
     (let k = redisNamespace i @ '':lock:'' @ [env i] @ '':'' @ uuid i
      in if action (options i) = None then k else k @ optionsString i)"

definition filename :: "img \<Rightarrow> string" where
  "filename i = uuid i @ optionsString i @ ''.'' @ toLowerCase (ext i)"

definition s3Path :: "img \<Rightarrow> string" where
  "s3Path i = [env i] @ ''/'' @ filename i"

definition originalS3Path :: "img \<Rightarrow> string" where
  "originalS3Path i = dir i @ (if dir i \<noteq> [] then ''/'' else []) @ file' i @ ''.'' @ ext i"

subsection \<open>Finding and building a version\<close>

text \<open>
  The calls \<^verbatim>\<open>lib/image.js\<close> makes on its collaborators, in the order it issues them;
  each is recorded with the collection as it stands once the call is issued (a driver call
  is taken to act on the collection when it is issued).
\<close>

datatype event =
    Lock string
  | FindVersion string
  | SetLock string
  | S3GetFile string
  | Del string
  | Manipulate
  | S3Upload string
  | Save string jsval

text \<open>
  What a call leaves behind: the deferred handed back to the caller, the calls made, the
  collection, and the exceptions that \<^verbatim>\<open>.done\<close> rethrew because no handler took them.
\<close>

record run =
  answer :: promise
  trace :: "(event \<times> doc list) list"
  rows :: "doc list"
  uncaught :: "jsval list"

text \<open>\<^verbatim>\<open>JSON.stringify({m: this.mime})\<close>; the mime types of \<^verbatim>\<open>parseFormat\<close> need no escaping.\<close>

definition stringify_m :: "string \<Rightarrow> string" where
  \<open>stringify_m m = ''{"m":"'' @ m @ ''"}''\<close>

definition save :: "err option \<Rightarrow> img \<Rightarrow> doc list \<Rightarrow> promise \<times> doc list" where
  "save e i docs =
     (case set_kv e (versionKey i) (Str (stringify_m (mime i))) docs of
        (Rejected x, docs') \<Rightarrow> (Rejected (ErrorObj x), docs')
      | (p, docs') \<Rightarrow> (Resolved This, docs'))"

text \<open>
  \<^verbatim>\<open>findVersion(deferred)\<close>: \<^verbatim>\<open>deferred.resolve(res !== null, _this)\<close>; a deferred takes one
  value, the comparison. After a failed read the \<^verbatim>\<open>done\<close> handler still runs, with
  \<^verbatim>\<open>res\<close> undefined.
\<close>

definition findVersion :: "err option \<Rightarrow> img \<Rightarrow> promise \<Rightarrow> doc list \<Rightarrow> promise" where
  "findVersion e i d docs =
     (let p = get e (versionKey i) docs;
          d1 = (case p of Rejected x \<Rightarrow> settle (Rejected (ErrorObj x)) d | _ \<Rightarrow> d);
          res = (case p of Resolved v \<Rightarrow> v | _ \<Rightarrow> Undefined)
      in settle (Resolved (JBool (res \<noteq> Null))) d1)"

text \<open>
  The collaborators of one build: the response status of \<^verbatim>\<open>s3.getFile\<close> (or its
  rejection), the \<^verbatim>\<open>err\<close> of the lock row's removal, the outcome of \<^verbatim>\<open>manipulate\<close>,
  the value \<^verbatim>\<open>s3.upload\<close> resolves with (or its rejection), and the \<^verbatim>\<open>err\<close> of the
  version row's update.
\<close>

record build_env =
  fetch :: "int outcome"
  del_err :: "err option"
  transform :: "unit outcome"
  upload :: "jsval outcome"
  save_err :: "err option"

text \<open>
  \<^verbatim>\<open>processVersion(deferred)\<close>, link by link:
  \<^item> \<^verbatim>\<open>.catch\<close> rejects the deferred on a failed fetch and passes \<^verbatim>\<open>undefined\<close> on;
  \<^item> \<^verbatim>\<open>.finally\<close> issues \<^verbatim>\<open>persist.del(lockKey)\<close> and does not wait for it;
  \<^item> the first \<^verbatim>\<open>.then\<close> reads \<^verbatim>\<open>res.statusCode\<close> (a \<^verbatim>\<open>TypeError\<close> when \<^verbatim>\<open>res\<close>
    is undefined); for a status other than 200 it evaluates \<^verbatim>\<open>new Error(res.statusCode)\<close>
    and drops the object, then calls \<^verbatim>\<open>manipulate\<close> in either case;
  \<^item> the second \<^verbatim>\<open>.then\<close> uploads;
  \<^item> \<^verbatim>\<open>.done\<close> rejects on a falsy upload result, else saves and resolves with
    \<^verbatim>\<open>_this\<close>; a rejection that reaches it is rethrown.
\<close>

definition processVersion :: "build_env \<Rightarrow> img \<Rightarrow> promise \<Rightarrow> doc list \<Rightarrow> run" where
  "processVersion b i d docs =
     (let d1 = (case fetch b of Failed x \<Rightarrow> settle (Rejected x) d | Fulfilled r \<Rightarrow> d);
          res = (case fetch b of Failed x \<Rightarrow> None | Fulfilled r \<Rightarrow> Some r);
          docs1 = snd (del (del_err b) [lockKey i] docs);
          tr1 = [(S3GetFile (originalS3Path i), docs), (Del (lockKey i), docs1)]
      in case res of
           None \<Rightarrow>
             \<lparr>answer = d1, trace = tr1, rows = docs1, uncaught = [ErrorObj (Str ''TypeError'')]\<rparr>
         | Some status \<Rightarrow>
             (case transform b of
                Failed x \<Rightarrow>
                  \<lparr>answer = d1, trace = tr1 @ [(Manipulate, docs1)], rows = docs1, uncaught = [x]\<rparr>
              | Fulfilled u \<Rightarrow>
                  (let tr2 = tr1 @ [(Manipulate, docs1), (S3Upload (s3Path i), docs1)]
                   in case upload b of
                        Failed x \<Rightarrow> \<lparr>answer = d1, trace = tr2, rows = docs1, uncaught = [x]\<rparr>
                      | Fulfilled r \<Rightarrow>
                          if falsy r
                          then \<lparr>answer = settle (Rejected r) d1, trace = tr2, rows = docs1,
                                uncaught = []\<rparr>
                          else (let docs2 = snd (save (save_err b) i docs1)
                                in \<lparr>answer = settle (Resolved This) d1,
                                    trace = tr2 @ [(Save (versionKey i) (Str (stringify_m (mime i))), docs2)],
                                    rows = docs2, uncaught = []\<rparr>))))"

text \<open>
  One \<^verbatim>\<open>generateVersion\<close> call: the inputs of its \<^verbatim>\<open>lock\<close>, the writes of other
  workers between the settling of \<^verbatim>\<open>lock\<close> and this caller's next store call, the
  \<^verbatim>\<open>err\<close> of \<^verbatim>\<open>findVersion\<close>'s read, the clock and the two \<^verbatim>\<open>err\<close>s of
  \<^verbatim>\<open>setLock\<close>, and the collaborators of the build.
\<close>

record gen_env =
  lock_err :: "err option"
  lock_now :: int
  lock_ticks :: "tick list"
  meanwhile :: "store_write list"
  find_err :: "err option"
  setLock_now :: int
  setLock_find_err :: "err option"
  setLock_insert_err :: "err option"
  build :: build_env

text \<open>
  \<^verbatim>\<open>persist.lock(key).then(A).catch(B)\<close>: \<^verbatim>\<open>A\<close> calls \<^verbatim>\<open>findVersion(deferred)\<close>;
  \<^verbatim>\<open>B\<close> calls \<^verbatim>\<open>persist.setLock(key).done(function() { _this.processVersion(deferred) })\<close>,
  whose handler takes no argument, and which rethrows when \<^verbatim>\<open>setLock\<close> rejects.
\<close>

definition generateVersion :: "gen_env \<Rightarrow> img \<Rightarrow> doc list \<Rightarrow> run" where
  "generateVersion g i docs =
     (let s = lock (lock_err g) (lock_now g) (lock_ticks g) (lockKey i) docs;
          docs1 = apply_writes (meanwhile g) (settled_store s)
      in case deferred s of
           Pending \<Rightarrow>
             \<lparr>answer = Pending, trace = [(Lock (lockKey i), docs)], rows = store s, uncaught = []\<rparr>
         | Resolved msg \<Rightarrow>
             \<lparr>answer = findVersion (find_err g) i Pending docs1,
              trace = [(Lock (lockKey i), docs), (FindVersion (versionKey i), docs1)],
              rows = docs1, uncaught = []\<rparr>
         | Rejected x \<Rightarrow>
             (case setLock (setLock_find_err g) (setLock_insert_err g) (setLock_now g)
                     (lockKey i) docs1 of
                (Rejected y, docs2) \<Rightarrow>
                  \<lparr>answer = Pending,
                   trace = [(Lock (lockKey i), docs), (SetLock (lockKey i), docs2)],
                   rows = docs2, uncaught = [y]\<rparr>
              | (p, docs2) \<Rightarrow>
                  (let r = processVersion (build g) i Pending docs2
                   in r\<lparr>trace := [(Lock (lockKey i), docs), (SetLock (lockKey i), docs2)]
                                    @ trace r\<rparr>)))"

text \<open>
  The suffix as section 6 of the specification writes it:
  \<^verbatim>\<open>_a<actionFirstChar>[_w<width>][_h<height>][_cx<cropX>][_cy<cropY>]\<close>.
\<close>

definition suffix_field :: "string \<Rightarrow> optval option \<Rightarrow> string" where
  "suffix_field tag v = (case v of None \<Rightarrow> [] | Some x \<Rightarrow> tag @ to_str x)"

definition spec_suffix :: "char \<Rightarrow> options \<Rightarrow> string" where
  "spec_suffix c opts =
     ''_a'' @ [c] @ suffix_field ''_w'' (width opts) @ suffix_field ''_h'' (height opts)
       @ suffix_field ''_cx'' (cropX opts) @ suffix_field ''_cy'' (cropY opts)"

section \<open>The specification's vocabulary for the polling loop\<close>

text \<open>
  ``The key is still present and the deadline has not passed'' at every firing of a list:
  each re-read returns a value the loop takes for present (one that is not falsy), no later
  than the deadline \<open>dl\<close>. \<open>docs_after\<close> is the collection once the other workers'
  writes of those firings are applied.
\<close>

fun still_held :: "string \<Rightarrow> int \<Rightarrow> tick list \<Rightarrow> doc list \<Rightarrow> bool" where
  "still_held k dl [] docs = True"
| "still_held k dl (t # ts) docs =
     (case get (read_err t) k (apply_writes (others t) docs) of
        Resolved v \<Rightarrow> \<not> falsy v \<and> at t \<le> dl \<and> still_held k dl ts (apply_writes (others t) docs)
      | _ \<Rightarrow> False)"

definition docs_after :: "tick list \<Rightarrow> doc list \<Rightarrow> doc list" where
  "docs_after ts docs = foldl (\<lambda>d t. apply_writes (others t) d) docs ts"

section \<open>Sample inputs\<close>

text \<open>
  A request for \<^verbatim>\<open>a/b.jpg\<close> resized to 100 by 50 in the development environment (the
  identity stands in for the digest), a build in which every collaborator succeeds, the lock
  row another worker holds until 7000, a caller that finds no lock while another worker
  inserts one before this caller's \<^verbatim>\<open>setLock\<close>, and a caller that waits while the
  holder releases the lock and stores the version.
\<close>

definition sample_options :: options where
  "sample_options = \<lparr>action = Some ''resize'', width = Some (NumV 100), height = Some (NumV 50), cropX = None, cropY = None\<rparr>"

definition sample_parsed :: parsed where
  "sample_parsed = \<lparr>p_dir = ''a'', p_filename = ''b'', p_ext = ''jpg'', p_options = sample_options, p_json = False\<rparr>"

definition sample_img :: img where
  "sample_img = new_Img (\<lambda>s. s) ''img-server'' CHR ''d'' sample_parsed"

definition sample_build :: build_env where
  "sample_build = \<lparr>fetch = Fulfilled 200, del_err = None, transform = Fulfilled (),
     upload = Fulfilled (JBool True), save_err = None\<rparr>"

definition sample_lock_row :: doc where
  "sample_lock_row = \<lparr>key = lockKey sample_img, val = Num 7000\<rparr>"

definition sample_tick :: "store_write list \<Rightarrow> int \<Rightarrow> tick" where
  "sample_tick ws n = \<lparr>others = ws, read_err = None, at = n\<rparr>"

definition sample_gen :: gen_env where
  "sample_gen = \<lparr>lock_err = None, lock_now = 5000, lock_ticks = [],
     meanwhile = [WInsert (lockKey sample_img) (Num 7000)], find_err = None,
     setLock_now = 5001, setLock_find_err = None, setLock_insert_err = None,
     build = sample_build\<rparr>"

definition sample_wait :: gen_env where
  "sample_wait = sample_gen\<lparr>
     lock_ticks := [sample_tick [WDel [lockKey sample_img],
                                 WSet (versionKey sample_img) (Str (stringify_m ''image/jpeg''))] 5200],
     meanwhile := []\<rparr>"

section \<open>Facts about the store and the keys\<close>

lemma findOne_remove_keys: "findOne k (remove_keys [k] docs) = None"
  by (induction docs) (auto simp: findOne_def remove_keys_def)

lemma findOne_upsert_other: "k \<noteq> k' \<Longrightarrow> findOne k (upsert k' v docs) = findOne k docs"
  by (induction docs) (auto simp: findOne_def)

lemma lockKey_neq_versionKey: "lockKey i \<noteq> versionKey i"
  by (simp add: lockKey_def versionKey_def imgKey_def Let_def)

lemma sample_keys:
  "lockKey sample_img = ''img-server:lock:d:ab_ar_w100_h50''"
  "versionKey sample_img = ''img-server:d:ab_ar_w100_h50''"
  "originalS3Path sample_img = ''a/b.jpg''"
  "s3Path sample_img = ''d/ab_ar_w100_h50.jpg''"
  "mime sample_img = ''image/jpeg''"
  by (simp_all add: sample_img_def sample_parsed_def sample_options_def new_Img_def lockKey_def
      versionKey_def imgKey_def optionsString_def num_str_def digits.simps originalS3Path_def
      s3Path_def filename_def toLowerCase_def parseFormat_def Let_def)

section \<open>\<^verbatim>\<open>setnx\<close>\<close>

text \<open>
  Claim C3, as the code has it: with no driver error, \<^verbatim>\<open>setnx\<close> on an absent key
  performs the insert and resolves with the inserted row; on a present key it resolves with
  \<^verbatim>\<open>true\<close> and leaves the collection, and so the stored value, unchanged. \<^verbatim>\<open>true\<close> is
  therefore the answer exactly when the key was already present.
\<close>

theorem setnx_result:
  "(findOne k docs = None \<longrightarrow>
      setnx None None k v docs = (Resolved (Row k v), docs @ [\<lparr>key = k, val = v\<rparr>]))
   \<and> (findOne k docs \<noteq> None \<longrightarrow> setnx None None k v docs = (Resolved (JBool True), docs))
   \<and> (fst (setnx None None k v docs) = Resolved (JBool True)) = (findOne k docs \<noteq> None)"
  by (auto simp: setnx_def setnx_find_def setnx_insert_def insert_row_def split: option.splits)

text \<open>
  Claim C3, witness: an empty collection, and one that already holds the key.
\<close>

theorem setnx_result_witness:
  "findOne ''k'' [] = None
   \<and> setnx None None ''k'' (Num 2) [] = (Resolved (Row ''k'' (Num 2)), [\<lparr>key = ''k'', val = Num 2\<rparr>])
   \<and> findOne ''k'' [\<lparr>key = ''k'', val = Num 1\<rparr>] \<noteq> None
   \<and> setnx None None ''k'' (Num 2) [\<lparr>key = ''k'', val = Num 1\<rparr>]
       = (Resolved (JBool True), [\<lparr>key = ''k'', val = Num 1\<rparr>])"
  using setnx_result [of "''k''" "[]" "Num 2"]
    setnx_result [of "''k''" "[\<lparr>key = ''k'', val = Num 1\<rparr>]" "Num 2"]
  by (simp add: findOne_def)

text \<open>
  Claim C3 as stated, that \<^verbatim>\<open>true\<close> means ``this call inserted'', fails: on a present key
  the call resolves \<^verbatim>\<open>true\<close> without inserting, and on an absent key it inserts and
  resolves with the row, not with \<^verbatim>\<open>true\<close>.
\<close>

theorem setnx_true_counterexample:
  "setnx None None ''k'' (Num 2) [\<lparr>key = ''k'', val = Num 1\<rparr>]
     = (Resolved (JBool True), [\<lparr>key = ''k'', val = Num 1\<rparr>])
   \<and> setnx None None ''k'' (Num 2) [] = (Resolved (Row ''k'' (Num 2)), [\<lparr>key = ''k'', val = Num 2\<rparr>])"
  by (simp add: setnx_def setnx_find_def setnx_insert_def insert_row_def findOne_def)

text \<open>
  Claim C2: two \<^verbatim>\<open>setnx\<close> calls on the same absent key, started together. The store
  serves both \<^verbatim>\<open>findOne\<close> calls before either \<^verbatim>\<open>insert\<close>: both calls find nothing,
  both insert, both resolve with their own row, and the collection holds the key twice. The
  check and the insert are two driver calls, not one atomic operation.
\<close>

theorem setnx_interleaved_both_insert:
  "schedule [0, 1, 0, 1] ([start_setnx ''k'' (Num 7000), start_setnx ''k'' (Num 7001)], [])
     = ([\<lparr>ckey = ''k'', cval = Num 7000, cpc = Finished (Resolved (Row ''k'' (Num 7000)))\<rparr>,
         \<lparr>ckey = ''k'', cval = Num 7001, cpc = Finished (Resolved (Row ''k'' (Num 7001)))\<rparr>],
        [\<lparr>key = ''k'', val = Num 7000\<rparr>, \<lparr>key = ''k'', val = Num 7001\<rparr>])"
  by (simp add: start_setnx_def step_call_def setnx_find_def setnx_insert_def findOne_def
      insert_row_def)

text \<open>
  Served one after the other, the same two calls give one insert and one \<^verbatim>\<open>true\<close>.
\<close>

lemma setnx_sequential_one_insert:
  "schedule [0, 0, 1, 1] ([start_setnx ''k'' (Num 7000), start_setnx ''k'' (Num 7001)], [])
     = ([\<lparr>ckey = ''k'', cval = Num 7000, cpc = Finished (Resolved (Row ''k'' (Num 7000)))\<rparr>,
         \<lparr>ckey = ''k'', cval = Num 7001, cpc = Finished (Resolved (JBool True))\<rparr>],
        [\<lparr>key = ''k'', val = Num 7000\<rparr>])"
  by (simp add: start_setnx_def step_call_def setnx_find_def setnx_insert_def findOne_def
      insert_row_def)

section \<open>\<^verbatim>\<open>lock\<close>\<close>

lemma run_timer_Cleared: "lockTimer s = Cleared \<Longrightarrow> run_timer k ts s = s"
  by (cases ts) simp_all

lemma run_timer_NoTimer: "lockTimer s = NoTimer \<Longrightarrow> run_timer k ts s = s"
  by (cases ts) simp_all

lemma on_tick_held:
  assumes "deferred s = Pending"
    and "get (read_err t) k (apply_writes (others t) (store s)) = Resolved v"
    and "\<not> falsy v" and "at t \<le> expiration s"
  shows "on_tick k t s = s\<lparr>store := apply_writes (others t) (store s), fired := Suc (fired s)\<rparr>"
  using assms by (simp add: on_tick_def Let_def)

lemma run_timer_held:
  "still_held k (expiration s) pre (store s) \<Longrightarrow> deferred s = Pending \<Longrightarrow> lockTimer s = Running p
   \<Longrightarrow> run_timer k (pre @ rest) s
       = run_timer k rest (s\<lparr>store := docs_after pre (store s), fired := fired s + length pre\<rparr>)"
proof (induction pre arbitrary: s)
  case Nil
  then show ?case by (simp add: docs_after_def)
next
  case (Cons t pre)
  from Cons.prems(1) obtain v where
    v: "get (read_err t) k (apply_writes (others t) (store s)) = Resolved v"
    "\<not> falsy v" "at t \<le> expiration s"
    and rest: "still_held k (expiration s) pre (apply_writes (others t) (store s))"
    by (auto split: promise.splits)
  let ?s = "s\<lparr>store := apply_writes (others t) (store s), fired := Suc (fired s)\<rparr>"
  have step: "on_tick k t s = ?s"
    using Cons.prems(2) v by (rule on_tick_held)
  have "run_timer k ((t # pre) @ rest) s = run_timer k (pre @ rest) ?s"
    using Cons.prems(3) step by simp
  also have "\<dots> = run_timer k rest (?s\<lparr>store := docs_after pre (store ?s), fired := fired ?s + length pre\<rparr>)"
    using rest Cons.prems(2,3) by (intro Cons.IH) simp_all
  finally show ?case by (simp add: docs_after_def)
qed

lemma lock_first_polling:
  assumes "get None k docs = Resolved v" and "v \<noteq> Null" and "\<not> parseInt_less v now"
  shows "lock_first None now k docs
      = \<lparr>deferred = Pending, lockTimer = Running interval, expiration = now + waitTimeout,
         fired = 0, late = 0, store = docs, settled_store = docs\<rparr>"
  using assms by (simp add: lock_first_def Let_def)

lemma expiration_on_tick: "expiration (on_tick k t s) = expiration s"
  by (simp add: on_tick_def Let_def settle_lock_def clearInterval_def
      split: promise.splits timer.splits)

lemma expiration_run_timer: "expiration (run_timer k ts s) = expiration s"
  by (induction ts arbitrary: s) (simp_all add: expiration_on_tick split: timer.splits)

lemma on_tick_absent:
  assumes "deferred s = Pending" and "lockTimer s = Running p"
    and "get (read_err t) k (apply_writes (others t) (store s)) = Resolved Null"
  shows "deferred (on_tick k t s) = Resolved (Str ''lock absent'')"
    and "lockTimer (on_tick k t s) = Cleared"
  using assms by (simp_all add: on_tick_def Let_def settle_lock_def clearInterval_def)

lemma on_tick_timeout:
  assumes "deferred s = Pending" and "lockTimer s = Running p"
    and "get (read_err t) k (apply_writes (others t) (store s)) = Resolved w"
    and "\<not> falsy w" and "at t > expiration s"
  shows "deferred (on_tick k t s) = Rejected (Str ''lock timeout'')"
    and "lockTimer (on_tick k t s) = Cleared"
  using assms by (simp_all add: on_tick_def Let_def settle_lock_def clearInterval_def)

text \<open>
  Claim C8. Let the first read of \<open>k\<close> succeed with a value \<open>v\<close> that is not
  \<^verbatim>\<open>null\<close> and not expired at \<open>now\<close>. Then \<^verbatim>\<open>lock\<close> starts the interval timer
  with period \<open>interval\<close> and the deadline \<open>now + waitTimeout\<close>, which no firing changes.
  While every re-read finds the key present before the deadline, the call stays pending, the
  timer keeps running, and each firing makes one read. The first re-read that finds the key
  absent resolves the call with \<^verbatim>\<open>'lock absent'\<close>; the first re-read that finds it
  present after the deadline rejects the call with \<^verbatim>\<open>'lock timeout'\<close>. (Present is what
  the loop tests, \<^verbatim>\<open>!_result\<close> being false, as it is for every timestamp
  \<^verbatim>\<open>setLock\<close> writes.)
\<close>

theorem lock_polls_until_absent_or_deadline:
  assumes "get None k docs = Resolved v" and "v \<noteq> Null" and "\<not> parseInt_less v now"
    and "still_held k (now + waitTimeout) pre docs"
  shows "lock None now [] k docs
           = \<lparr>deferred = Pending, lockTimer = Running interval, expiration = now + waitTimeout,
              fired = 0, late = 0, store = docs, settled_store = docs\<rparr>
       \<and> expiration (lock None now ticks k docs) = now + waitTimeout
       \<and> deferred (lock None now pre k docs) = Pending
       \<and> lockTimer (lock None now pre k docs) = Running interval
       \<and> fired (lock None now pre k docs) = length pre
       \<and> (get (read_err t) k (apply_writes (others t) (docs_after pre docs)) = Resolved Null \<longrightarrow>
            deferred (lock None now (pre @ t # post) k docs) = Resolved (Str ''lock absent''))
       \<and> (get (read_err t) k (apply_writes (others t) (docs_after pre docs)) = Resolved w
            \<and> \<not> falsy w \<and> at t > now + waitTimeout \<longrightarrow>
            deferred (lock None now (pre @ t # post) k docs) = Rejected (Str ''lock timeout''))"
proof -
  let ?s0 = "\<lparr>deferred = Pending, lockTimer = Running interval, expiration = now + waitTimeout,
              fired = 0, late = 0, store = docs, settled_store = docs\<rparr>"
  let ?s1 = "?s0\<lparr>store := docs_after pre (store ?s0), fired := fired ?s0 + length pre\<rparr>"
  have first: "lock_first None now k docs = ?s0"
    using assms(1-3) by (rule lock_first_polling)
  have enter: "lock None now [] k docs = ?s0"
    by (simp add: lock_def first)
  have dl: "expiration (lock None now ticks k docs) = now + waitTimeout"
    by (simp add: lock_def expiration_run_timer first)
  have run: "run_timer k (pre @ rest) ?s0 = run_timer k rest ?s1" for rest
    using assms(4) by (intro run_timer_held) simp_all
  have pre: "lock None now pre k docs = ?s1"
    using run [of "[]"] by (simp add: lock_def first)
  have tail: "lock None now (pre @ t # post) k docs = run_timer k post (on_tick k t ?s1)"
    using run [of "t # post"] by (simp add: lock_def first)
  have absent: "deferred (lock None now (pre @ t # post) k docs) = Resolved (Str ''lock absent'')"
    if "get (read_err t) k (apply_writes (others t) (docs_after pre docs)) = Resolved Null"
  proof -
    have "deferred (on_tick k t ?s1) = Resolved (Str ''lock absent'')"
      and "lockTimer (on_tick k t ?s1) = Cleared"
      using that by (simp_all add: on_tick_absent [where p = interval])
    then show ?thesis by (simp add: tail run_timer_Cleared)
  qed
  have timeout: "deferred (lock None now (pre @ t # post) k docs) = Rejected (Str ''lock timeout'')"
    if "get (read_err t) k (apply_writes (others t) (docs_after pre docs)) = Resolved w"
      and "\<not> falsy w" and "at t > now + waitTimeout"
  proof -
    have "deferred (on_tick k t ?s1) = Rejected (Str ''lock timeout'')"
      and "lockTimer (on_tick k t ?s1) = Cleared"
      using that by (simp_all add: on_tick_timeout [where p = interval and w = w])
    then show ?thesis by (simp add: tail run_timer_Cleared)
  qed
  show ?thesis
    using enter dl pre absent timeout by simp
qed

text \<open>
  Claim C8, witness: a lock row valid until 6000 read at 5000; the first re-read finds it,
  the second finds it removed, or else finds it still there at 7001, past the deadline 7000.
\<close>

theorem lock_polls_until_absent_or_deadline_witness:
  "get None ''k'' [\<lparr>key = ''k'', val = Num 6000\<rparr>] = Resolved (Num 6000)
   \<and> Num 6000 \<noteq> Null \<and> \<not> parseInt_less (Num 6000) 5000
   \<and> still_held ''k'' (5000 + waitTimeout) [sample_tick [] 5200] [\<lparr>key = ''k'', val = Num 6000\<rparr>]
   \<and> deferred (lock None 5000 [sample_tick [] 5200, sample_tick [WDel [''k'']] 5400] ''k''
        [\<lparr>key = ''k'', val = Num 6000\<rparr>]) = Resolved (Str ''lock absent'')
   \<and> deferred (lock None 5000 [sample_tick [] 5200, sample_tick [] 7001] ''k''
        [\<lparr>key = ''k'', val = Num 6000\<rparr>]) = Rejected (Str ''lock timeout'')"
proof -
  let ?docs = "[\<lparr>key = ''k'', val = Num 6000\<rparr>]"
  have h1: "get None ''k'' ?docs = Resolved (Num 6000)"
    by (simp add: get_def findOne_def)
  have h2: "Num 6000 \<noteq> Null" by simp
  have h3: "\<not> parseInt_less (Num 6000) 5000" by (simp add: parseInt_less_def)
  have h4: "still_held ''k'' (5000 + waitTimeout) [sample_tick [] 5200] ?docs"
    by (simp add: sample_tick_def apply_writes_def get_def findOne_def waitTimeout_def interval_def)
  have a: "get (read_err (sample_tick [WDel [''k'']] 5400)) ''k''
             (apply_writes (others (sample_tick [WDel [''k'']] 5400))
               (docs_after [sample_tick [] 5200] ?docs)) = Resolved Null"
    by (simp add: sample_tick_def apply_writes_def docs_after_def get_def findOne_def remove_keys_def)
  have b: "get (read_err (sample_tick [] 7001)) ''k''
             (apply_writes (others (sample_tick [] 7001))
               (docs_after [sample_tick [] 5200] ?docs)) = Resolved (Num 6000)
           \<and> \<not> falsy (Num 6000) \<and> at (sample_tick [] 7001) > 5000 + waitTimeout"
    by (simp add: sample_tick_def apply_writes_def docs_after_def get_def findOne_def
        waitTimeout_def interval_def)
  show ?thesis
    using h1 h2 h3 h4 a b
      lock_polls_until_absent_or_deadline [OF h1 h2 h3 h4,
        where t = "sample_tick [WDel [''k'']] 5400" and post = "[]" and w = "Num 6000"
          and ticks = "[]"]
      lock_polls_until_absent_or_deadline [OF h1 h2 h3 h4,
        where t = "sample_tick [] 7001" and post = "[]" and w = "Num 6000" and ticks = "[]"]
    by simp
qed

text \<open>
  Every exit of the timer callback cancels the timer, so when the first read succeeded no
  firing runs with the deferred already settled.
\<close>

lemma on_tick_late:
  "deferred s = Pending \<Longrightarrow> late (on_tick k t s) = late s
     \<and> (deferred (on_tick k t s) = Pending \<or> lockTimer (on_tick k t s) = Cleared
        \<or> lockTimer s \<noteq> Running p)"
  by (auto simp: on_tick_def Let_def settle_lock_def clearInterval_def
      split: promise.splits timer.splits)

lemma run_timer_no_late_tick:
  "deferred s = Pending \<or> (\<forall>p. lockTimer s \<noteq> Running p) \<Longrightarrow> late (run_timer k ts s) = late s"
proof (induction ts arbitrary: s)
  case Nil
  then show ?case by simp
next
  case (Cons t ts)
  show ?case
  proof (cases "lockTimer s")
    case (Running p)
    with Cons.prems have pend: "deferred s = Pending" by simp
    from on_tick_late [OF pend, of k t p] Running
    have l: "late (on_tick k t s) = late s"
      and inv: "deferred (on_tick k t s) = Pending \<or> (\<forall>q. lockTimer (on_tick k t s) \<noteq> Running q)"
      by auto
    from Cons.IH [OF inv] l Running show ?thesis by simp
  qed simp_all
qed

lemma lock_no_late_tick: "late (lock None now ticks k docs) = 0"
proof -
  have "deferred (lock_first None now k docs) = Pending
        \<or> (\<forall>p. lockTimer (lock_first None now k docs) \<noteq> Running p)"
    by (auto simp: lock_first_def get_def Let_def settle_lock_def split: option.splits)
  then have "late (lock None now ticks k docs) = late (lock_first None now k docs)"
    unfolding lock_def by (rule run_timer_no_late_tick)
  also have "\<dots> = 0"
    by (auto simp: lock_first_def get_def Let_def settle_lock_def split: option.splits)
  finally show ?thesis .
qed

text \<open>
  Claim C9: no timer fires after the promise of \<^verbatim>\<open>lock\<close> has settled. The code misses
  one path. When the first read fails, the \<^verbatim>\<open>catch\<close> handler rejects the deferred and
  the \<^verbatim>\<open>done\<close> handler then runs with \<^verbatim>\<open>result\<close> undefined, which is not
  \<^verbatim>\<open>null\<close> and not expired: the timer is started after the promise has settled, and it
  fires for as long as the key is present and the deadline has not passed.
\<close>

theorem lock_timer_after_rejection:
  "lock (Some ''ECONNRESET'') 5000 [] ''k'' [\<lparr>key = ''k'', val = Num 6000\<rparr>]
     = \<lparr>deferred = Rejected (ErrorObj (Str ''ECONNRESET'')), lockTimer = Running interval,
        expiration = 5000 + waitTimeout, fired = 0, late = 0,
        store = [\<lparr>key = ''k'', val = Num 6000\<rparr>], settled_store = [\<lparr>key = ''k'', val = Num 6000\<rparr>]\<rparr>
   \<and> lock (Some ''ECONNRESET'') 5000 [sample_tick [] 5200, sample_tick [] 5400] ''k''
        [\<lparr>key = ''k'', val = Num 6000\<rparr>]
     = \<lparr>deferred = Rejected (ErrorObj (Str ''ECONNRESET'')), lockTimer = Running interval,
        expiration = 5000 + waitTimeout, fired = 2, late = 2,
        store = [\<lparr>key = ''k'', val = Num 6000\<rparr>], settled_store = [\<lparr>key = ''k'', val = Num 6000\<rparr>]\<rparr>"
  by (simp add: lock_def lock_first_def get_def Let_def settle_lock_def parseInt_less_def
      on_tick_def sample_tick_def apply_writes_def findOne_def waitTimeout_def interval_def)

section \<open>\<^verbatim>\<open>processVersion\<close>\<close>

lemma rows_processVersion:
  "del_err b = None \<Longrightarrow> findOne (lockKey i) (rows (processVersion b i d docs)) = None"
  using lockKey_neq_versionKey [of i]
  by (simp add: processVersion_def del_def save_def set_kv_def Let_def findOne_remove_keys
      findOne_upsert_other split: outcome.splits option.splits)

lemma trace_processVersion_del:
  "(Del (lockKey i), snd (del (del_err b) [lockKey i] docs)) \<in> set (trace (processVersion b i d docs))"
  by (simp add: processVersion_def Let_def split: outcome.splits option.splits)

text \<open>
  Claim C6: every \<^verbatim>\<open>processVersion\<close> run, whatever the fetch, the transform and the
  upload do, issues \<^verbatim>\<open>del(lockKey)\<close>; and when that removal goes through, the lock row is
  absent from the collection the run leaves behind.
\<close>

theorem processVersion_deletes_lock:
  "Del (lockKey i) \<in> fst ` set (trace (processVersion b i d docs))
   \<and> (del_err b = None \<longrightarrow> findOne (lockKey i) (rows (processVersion b i d docs)) = None)"
proof -
  have "fst (Del (lockKey i), snd (del (del_err b) [lockKey i] docs))
          \<in> fst ` set (trace (processVersion b i d docs))"
    using trace_processVersion_del by (rule imageI)
  then show ?thesis by (simp add: rows_processVersion)
qed

text \<open>
  Claim C6, witness: a build started with the lock row in the collection.
\<close>

theorem processVersion_deletes_lock_witness:
  "del_err sample_build = None
   \<and> findOne (lockKey sample_img) [sample_lock_row] = Some sample_lock_row
   \<and> findOne (lockKey sample_img) (rows (processVersion sample_build sample_img Pending [sample_lock_row])) = None"
  using processVersion_deletes_lock [of sample_img sample_build Pending "[sample_lock_row]"]
  by (simp add: sample_build_def sample_lock_row_def findOne_def)

text \<open>
  Claim C7: the first two calls of every \<^verbatim>\<open>processVersion\<close> run are the fetch and the
  removal of the lock row. Whatever follows is the transform, the upload or the saving of the
  version row, and, when the removal went through, runs on a collection without the lock
  row; after a fulfilled fetch the transform does follow, and after a fulfilled transform
  the upload.
\<close>

theorem processVersion_releases_first:
  "take 2 (trace (processVersion b i d docs))
     = [(S3GetFile (originalS3Path i), docs), (Del (lockKey i), snd (del (del_err b) [lockKey i] docs))]
   \<and> (\<forall>(e, st) \<in> set (drop 2 (trace (processVersion b i d docs))).
         (e = Manipulate \<or> e = S3Upload (s3Path i) \<or> e = Save (versionKey i) (Str (stringify_m (mime i))))
         \<and> (del_err b = None \<longrightarrow> findOne (lockKey i) st = None))
   \<and> (\<forall>status. fetch b = Fulfilled status \<longrightarrow>
         (Manipulate, snd (del (del_err b) [lockKey i] docs)) \<in> set (drop 2 (trace (processVersion b i d docs))))
   \<and> (\<forall>status. fetch b = Fulfilled status \<and> transform b = Fulfilled () \<longrightarrow>
         (S3Upload (s3Path i), snd (del (del_err b) [lockKey i] docs)) \<in> set (drop 2 (trace (processVersion b i d docs))))"
  using lockKey_neq_versionKey [of i]
  by (auto simp: processVersion_def del_def save_def set_kv_def Let_def findOne_remove_keys
      findOne_upsert_other split: outcome.splits option.splits)

text \<open>
  Claim C7, witness: the build in which everything succeeds.
\<close>

theorem processVersion_releases_first_witness:
  "fetch sample_build = Fulfilled 200 \<and> transform sample_build = Fulfilled ()
   \<and> del_err sample_build = None
   \<and> findOne (lockKey sample_img) [sample_lock_row] = Some sample_lock_row
   \<and> (Manipulate, []) \<in> set (drop 2 (trace (processVersion sample_build sample_img Pending [sample_lock_row])))
   \<and> (S3Upload (s3Path sample_img), [])
        \<in> set (drop 2 (trace (processVersion sample_build sample_img Pending [sample_lock_row])))
   \<and> findOne (lockKey sample_img) [] = None"
proof -
  have d: "snd (del (del_err sample_build) [lockKey sample_img] [sample_lock_row]) = []"
    by (simp add: del_def sample_build_def remove_keys_def sample_lock_row_def)
  have h: "fetch sample_build = Fulfilled 200" "transform sample_build = Fulfilled ()"
    "del_err sample_build = None"
    by (simp_all add: sample_build_def)
  show ?thesis
    using h d processVersion_releases_first [of sample_build sample_img Pending "[sample_lock_row]"]
    by (simp add: findOne_def sample_lock_row_def)
qed

text \<open>
  Claim C5: a fetch that answers with a status other than 200 must reject and must not go
  on to the transform and the upload. The code builds \<^verbatim>\<open>new Error(res.statusCode)\<close> and
  does not throw it: on a 404 the run transforms, uploads, saves the version row and resolves
  with the image. And when the upload promise rejects, \<^verbatim>\<open>.done\<close> has no rejection
  handler: the deferred is left pending, not rejected.
\<close>

theorem processVersion_status_ignored:
  "answer (processVersion (sample_build\<lparr>fetch := Fulfilled 404\<rparr>) sample_img Pending [sample_lock_row])
     = Resolved This
   \<and> map fst (trace (processVersion (sample_build\<lparr>fetch := Fulfilled 404\<rparr>) sample_img Pending [sample_lock_row]))
     = [S3GetFile ''a/b.jpg'', Del ''img-server:lock:d:ab_ar_w100_h50'', Manipulate,
        S3Upload ''d/ab_ar_w100_h50.jpg'',
        Save ''img-server:d:ab_ar_w100_h50'' (Str (stringify_m ''image/jpeg''))]
   \<and> answer (processVersion (sample_build\<lparr>upload := Failed (ErrorObj (Str ''403''))\<rparr>) sample_img Pending [sample_lock_row])
     = Pending"
  by (simp add: processVersion_def sample_build_def Let_def settle_def sample_keys)

section \<open>\<^verbatim>\<open>generateVersion\<close>\<close>

lemma sample_lock_no_lock:
  "lock None 5000 [] (lockKey sample_img) []
     = \<lparr>deferred = Rejected (Str ''no lock''), lockTimer = NoTimer, expiration = 0, fired = 0,
        late = 0, store = [], settled_store = []\<rparr>"
  by (simp add: lock_def lock_first_def get_def findOne_def Let_def settle_lock_def)

lemma sample_lock_absent:
  "lock None 5000 (lock_ticks sample_wait) (lockKey sample_img) [sample_lock_row]
     = \<lparr>deferred = Resolved (Str ''lock absent''), lockTimer = Cleared,
        expiration = 5000 + waitTimeout, fired = 1, late = 0,
        store = [\<lparr>key = versionKey sample_img, val = Str (stringify_m ''image/jpeg'')\<rparr>],
        settled_store = [\<lparr>key = versionKey sample_img, val = Str (stringify_m ''image/jpeg'')\<rparr>]\<rparr>"
  by (simp add: lock_def lock_first_def get_def findOne_def Let_def settle_lock_def
      sample_wait_def sample_gen_def sample_tick_def sample_lock_row_def parseInt_less_def
      on_tick_def apply_writes_def remove_keys_def clearInterval_def sample_keys)

text \<open>
  Claim C1, as the code has it: when \<^verbatim>\<open>lock\<close> rejected and \<^verbatim>\<open>setLock\<close> then finds
  the lock row already there, \<^verbatim>\<open>setLock\<close> resolves with \<^verbatim>\<open>true\<close> and the caller
  runs \<^verbatim>\<open>processVersion\<close> all the same: the rest of the call is that build, starting
  with the fetch. The handler given to \<^verbatim>\<open>.done\<close> does not look at the result.
\<close>

theorem generateVersion_builds_on_existing_lock:
  assumes "deferred (lock (lock_err g) (lock_now g) (lock_ticks g) (lockKey i) docs) = Rejected x"
    and "setLock_find_err g = None"
    and "findOne (lockKey i) (apply_writes (meanwhile g)
           (settled_store (lock (lock_err g) (lock_now g) (lock_ticks g) (lockKey i) docs))) = Some row"
  shows "setLock (setLock_find_err g) (setLock_insert_err g) (setLock_now g) (lockKey i)
           (apply_writes (meanwhile g)
             (settled_store (lock (lock_err g) (lock_now g) (lock_ticks g) (lockKey i) docs)))
         = (Resolved (JBool True), apply_writes (meanwhile g)
             (settled_store (lock (lock_err g) (lock_now g) (lock_ticks g) (lockKey i) docs)))
       \<and> answer (generateVersion g i docs)
         = answer (processVersion (build g) i Pending (apply_writes (meanwhile g)
             (settled_store (lock (lock_err g) (lock_now g) (lock_ticks g) (lockKey i) docs))))
       \<and> drop 2 (trace (generateVersion g i docs))
         = trace (processVersion (build g) i Pending (apply_writes (meanwhile g)
             (settled_store (lock (lock_err g) (lock_now g) (lock_ticks g) (lockKey i) docs))))
       \<and> S3GetFile (originalS3Path i) \<in> fst ` set (trace (generateVersion g i docs))"
proof -
  let ?docs1 = "apply_writes (meanwhile g)
      (settled_store (lock (lock_err g) (lock_now g) (lock_ticks g) (lockKey i) docs))"
  let ?pv = "processVersion (build g) i Pending ?docs1"
  have sl: "setLock (setLock_find_err g) (setLock_insert_err g) (setLock_now g) (lockKey i) ?docs1
              = (Resolved (JBool True), ?docs1)"
    using assms(2,3) by (simp add: setLock_def setnx_def setnx_find_def)
  have gv: "generateVersion g i docs
              = ?pv\<lparr>trace := [(Lock (lockKey i), docs), (SetLock (lockKey i), ?docs1)] @ trace ?pv\<rparr>"
    using assms(1) sl by (simp add: generateVersion_def Let_def)
  have "take 2 (trace ?pv) = [(S3GetFile (originalS3Path i), ?docs1),
          (Del (lockKey i), snd (del (del_err (build g)) [lockKey i] ?docs1))]"
    by (simp add: processVersion_def Let_def split: outcome.splits option.splits)
  then have "(S3GetFile (originalS3Path i), ?docs1) \<in> set (take 2 (trace ?pv))"
    by simp
  then have "(S3GetFile (originalS3Path i), ?docs1) \<in> set (trace ?pv)"
    by (rule in_set_takeD)
  then have "fst (S3GetFile (originalS3Path i), ?docs1) \<in> fst ` set (trace (generateVersion g i docs))"
    by (intro imageI) (simp add: gv)
  then show ?thesis
    using sl gv by simp
qed

text \<open>
  Claim C1, witness: no lock row at the first read, and one inserted by another worker
  before this caller's \<^verbatim>\<open>setLock\<close>.
\<close>

theorem generateVersion_builds_on_existing_lock_witness:
  "deferred (lock (lock_err sample_gen) (lock_now sample_gen) (lock_ticks sample_gen)
       (lockKey sample_img) []) = Rejected (Str ''no lock'')
   \<and> setLock_find_err sample_gen = None
   \<and> findOne (lockKey sample_img) (apply_writes (meanwhile sample_gen)
        (settled_store (lock (lock_err sample_gen) (lock_now sample_gen) (lock_ticks sample_gen)
           (lockKey sample_img) []))) = Some sample_lock_row
   \<and> S3GetFile (originalS3Path sample_img) \<in> fst ` set (trace (generateVersion sample_gen sample_img []))"
proof -
  have g: "lock_err sample_gen = None" "lock_now sample_gen = 5000" "lock_ticks sample_gen = []"
    "meanwhile sample_gen = [WInsert (lockKey sample_img) (Num 7000)]"
    "setLock_find_err sample_gen = None"
    by (simp_all add: sample_gen_def)
  have h1: "deferred (lock (lock_err sample_gen) (lock_now sample_gen) (lock_ticks sample_gen)
       (lockKey sample_img) []) = Rejected (Str ''no lock'')"
    by (simp add: g sample_lock_no_lock)
  have h2: "setLock_find_err sample_gen = None" by (simp add: g)
  have h3: "findOne (lockKey sample_img) (apply_writes (meanwhile sample_gen)
        (settled_store (lock (lock_err sample_gen) (lock_now sample_gen) (lock_ticks sample_gen)
           (lockKey sample_img) []))) = Some sample_lock_row"
    by (simp add: g sample_lock_no_lock apply_writes_def insert_row_def findOne_def
        sample_lock_row_def)
  show ?thesis
    using h1 h2 h3 generateVersion_builds_on_existing_lock [OF h1 h2 h3] by simp
qed

text \<open>
  Claim C1 as stated, that a caller whose \<^verbatim>\<open>setLock\<close> found the row does not build,
  fails on that input: the caller fetches, transforms, uploads and resolves with the image.
\<close>

theorem generateVersion_existing_lock_counterexample:
  "deferred (lock (lock_err sample_gen) (lock_now sample_gen) (lock_ticks sample_gen)
       (lockKey sample_img) []) = Rejected (Str ''no lock'')
   \<and> setLock None None 5001 (lockKey sample_img) [sample_lock_row]
       = (Resolved (JBool True), [sample_lock_row])
   \<and> map fst (trace (generateVersion sample_gen sample_img []))
       = [Lock ''img-server:lock:d:ab_ar_w100_h50'', SetLock ''img-server:lock:d:ab_ar_w100_h50'',
          S3GetFile ''a/b.jpg'', Del ''img-server:lock:d:ab_ar_w100_h50'', Manipulate,
          S3Upload ''d/ab_ar_w100_h50.jpg'',
          Save ''img-server:d:ab_ar_w100_h50'' (Str (stringify_m ''image/jpeg''))]
   \<and> answer (generateVersion sample_gen sample_img []) = Resolved This"
proof -
  have g: "lock_err sample_gen = None" "lock_now sample_gen = 5000" "lock_ticks sample_gen = []"
    "meanwhile sample_gen = [WInsert (lockKey sample_img) (Num 7000)]"
    "setLock_now sample_gen = 5001" "setLock_find_err sample_gen = None"
    "setLock_insert_err sample_gen = None" "build sample_gen = sample_build"
    by (simp_all add: sample_gen_def)
  have sl: "setLock None None 5001 (lockKey sample_img) [sample_lock_row]
       = (Resolved (JBool True), [sample_lock_row])"
    by (simp add: setLock_def setnx_def setnx_find_def findOne_def sample_lock_row_def)
  have aw: "apply_writes [WInsert (lockKey sample_img) (Num 7000)] [] = [sample_lock_row]"
    by (simp add: apply_writes_def insert_row_def sample_lock_row_def)
  have pv: "processVersion sample_build sample_img Pending [sample_lock_row]
      = \<lparr>answer = Resolved This,
         trace = [(S3GetFile ''a/b.jpg'', [sample_lock_row]),
                  (Del ''img-server:lock:d:ab_ar_w100_h50'', []), (Manipulate, []),
                  (S3Upload ''d/ab_ar_w100_h50.jpg'', []),
                  (Save ''img-server:d:ab_ar_w100_h50'' (Str (stringify_m ''image/jpeg'')),
                   [\<lparr>key = ''img-server:d:ab_ar_w100_h50'', val = Str (stringify_m ''image/jpeg'')\<rparr>])],
         rows = [\<lparr>key = ''img-server:d:ab_ar_w100_h50'', val = Str (stringify_m ''image/jpeg'')\<rparr>],
         uncaught = []\<rparr>"
    by (simp add: processVersion_def sample_build_def Let_def settle_def sample_keys del_def
        remove_keys_def sample_lock_row_def save_def set_kv_def)
  let ?pv = "processVersion sample_build sample_img Pending [sample_lock_row]"
  have gv: "generateVersion sample_gen sample_img []
      = ?pv\<lparr>trace := [(Lock (lockKey sample_img), []), (SetLock (lockKey sample_img), [sample_lock_row])]
                        @ trace ?pv\<rparr>"
    by (simp add: generateVersion_def g sample_lock_no_lock aw sl Let_def)
  have c1: "deferred (lock (lock_err sample_gen) (lock_now sample_gen) (lock_ticks sample_gen)
       (lockKey sample_img) []) = Rejected (Str ''no lock'')"
    by (simp add: g sample_lock_no_lock)
  have c3: "map fst (trace (generateVersion sample_gen sample_img []))
       = [Lock ''img-server:lock:d:ab_ar_w100_h50'', SetLock ''img-server:lock:d:ab_ar_w100_h50'',
          S3GetFile ''a/b.jpg'', Del ''img-server:lock:d:ab_ar_w100_h50'', Manipulate,
          S3Upload ''d/ab_ar_w100_h50.jpg'',
          Save ''img-server:d:ab_ar_w100_h50'' (Str (stringify_m ''image/jpeg''))]"
    by (simp add: gv pv sample_keys)
  have c4: "answer (generateVersion sample_gen sample_img []) = Resolved This"
    by (simp add: gv pv)
  from c1 sl c3 c4 show ?thesis by blast
qed

text \<open>
  Claim C4, as the code has it: when \<^verbatim>\<open>lock\<close> resolved and the read of the version
  key finds a row whose value is not \<^verbatim>\<open>null\<close>, the call resolves with the boolean
  \<^verbatim>\<open>true\<close>, the value of \<^verbatim>\<open>res !== null\<close>.
\<close>

theorem generateVersion_cached_is_true:
  assumes "deferred (lock (lock_err g) (lock_now g) (lock_ticks g) (lockKey i) docs) = Resolved msg"
    and "find_err g = None"
    and "findOne (versionKey i) (apply_writes (meanwhile g)
           (settled_store (lock (lock_err g) (lock_now g) (lock_ticks g) (lockKey i) docs))) = Some row"
    and "val row \<noteq> Null"
  shows "answer (generateVersion g i docs) = Resolved (JBool True)"
  using assms by (simp add: generateVersion_def findVersion_def get_def Let_def settle_def)

text \<open>
  Claim C4, witness: the caller waits one firing, during which the holder removes the lock
  row and stores the version row.
\<close>

theorem generateVersion_cached_is_true_witness:
  "deferred (lock (lock_err sample_wait) (lock_now sample_wait) (lock_ticks sample_wait)
       (lockKey sample_img) [sample_lock_row]) = Resolved (Str ''lock absent'')
   \<and> find_err sample_wait = None
   \<and> findOne (versionKey sample_img) (apply_writes (meanwhile sample_wait)
        (settled_store (lock (lock_err sample_wait) (lock_now sample_wait) (lock_ticks sample_wait)
           (lockKey sample_img) [sample_lock_row])))
       = Some \<lparr>key = versionKey sample_img, val = Str (stringify_m ''image/jpeg'')\<rparr>
   \<and> val \<lparr>key = versionKey sample_img, val = Str (stringify_m ''image/jpeg'')\<rparr> \<noteq> Null
   \<and> answer (generateVersion sample_wait sample_img [sample_lock_row]) = Resolved (JBool True)"
proof -
  have g: "lock_err sample_wait = None" "lock_now sample_wait = 5000"
    "meanwhile sample_wait = []" "find_err sample_wait = None"
    by (simp_all add: sample_wait_def sample_gen_def)
  have h1: "deferred (lock (lock_err sample_wait) (lock_now sample_wait) (lock_ticks sample_wait)
       (lockKey sample_img) [sample_lock_row]) = Resolved (Str ''lock absent'')"
    by (simp add: g sample_lock_absent)
  have h2: "find_err sample_wait = None" by (simp add: g)
  have h3: "findOne (versionKey sample_img) (apply_writes (meanwhile sample_wait)
        (settled_store (lock (lock_err sample_wait) (lock_now sample_wait) (lock_ticks sample_wait)
           (lockKey sample_img) [sample_lock_row])))
       = Some \<lparr>key = versionKey sample_img, val = Str (stringify_m ''image/jpeg'')\<rparr>"
    by (simp add: g sample_lock_absent apply_writes_def findOne_def)
  have h4: "val \<lparr>key = versionKey sample_img, val = Str (stringify_m ''image/jpeg'')\<rparr> \<noteq> Null"
    by simp
  show ?thesis
    using h1 h2 h3 h4 generateVersion_cached_is_true [OF h1 h2 h3 h4] by simp
qed

text \<open>
  Claim C4 as stated, that the call resolves with the stored content of the version row,
  fails on that input: the row holds the JSON text, the call resolves with \<^verbatim>\<open>true\<close>.
\<close>

theorem generateVersion_cached_counterexample:
  "deferred (lock (lock_err sample_wait) (lock_now sample_wait) (lock_ticks sample_wait)
       (lockKey sample_img) [sample_lock_row]) = Resolved (Str ''lock absent'')
   \<and> get None (versionKey sample_img) (rows (generateVersion sample_wait sample_img [sample_lock_row]))
       = Resolved (Str (stringify_m ''image/jpeg''))
   \<and> answer (generateVersion sample_wait sample_img [sample_lock_row]) = Resolved (JBool True)
   \<and> answer (generateVersion sample_wait sample_img [sample_lock_row])
       \<noteq> Resolved (Str (stringify_m ''image/jpeg''))"
proof -
  have g: "lock_err sample_wait = None" "lock_now sample_wait = 5000"
    "meanwhile sample_wait = []" "find_err sample_wait = None"
    by (simp_all add: sample_wait_def sample_gen_def)
  show ?thesis
    by (simp add: generateVersion_def g sample_lock_absent Let_def apply_writes_def
        findVersion_def get_def findOne_def settle_def)
qed

section \<open>Key derivation\<close>

lemma optionsString_cong:
  "json i = json i' \<Longrightarrow> options i = options i' \<Longrightarrow> optionsString i = optionsString i'"
  by (simp add: optionsString_def cong: option.case_cong)

lemma optionsString_spec:
  "\<not> json i \<Longrightarrow> action (options i) = Some (c # cs) \<Longrightarrow> optionsString i = spec_suffix c (options i)"
  by (simp add: optionsString_def spec_suffix_def suffix_field_def split: option.splits)

text \<open>
  Claim C10: the version key is the base key when no action is requested or the request is
  for JSON metadata; otherwise it is the base key followed by
  \<^verbatim>\<open>_a<actionFirstChar>[_w<width>][_h<height>][_cx<cropX>][_cy<cropY>]\<close>, so that the options
  \<^verbatim>\<open>{action: "resize", width: 100, height: 50}\<close> give the suffix \<^verbatim>\<open>_ar_w100_h50\<close>. The
  base key is the namespace, the environment character and the digest of directory and
  file name, and two requests that agree on directory, file name, options and the JSON flag
  get the same version key.
\<close>

theorem versionKey_format:
  "(action (options i) = None \<or> json i \<longrightarrow> versionKey i = imgKey i)
   \<and> (action (options i) = Some (c # cs) \<and> \<not> json i \<longrightarrow>
        versionKey i = imgKey i @ spec_suffix c (options i))
   \<and> (options i = \<lparr>action = Some ''resize'', width = Some (NumV 100), height = Some (NumV 50),
                     cropX = None, cropY = None\<rparr> \<and> \<not> json i \<longrightarrow>
        versionKey i = imgKey i @ ''_ar_w100_h50'')
   \<and> imgKey (new_Img md5 ns e p) = ns @ '':'' @ [e] @ '':'' @ md5 (p_dir p @ p_filename p)
   \<and> (p_dir p = p_dir p' \<and> p_filename p = p_filename p' \<and> p_options p = p_options p'
        \<and> p_json p = p_json p' \<longrightarrow>
        versionKey (new_Img md5 ns e p) = versionKey (new_Img md5 ns e p'))"
proof -
  have n100: "num_str 100 = ''100''" and n50: "num_str 50 = ''50''"
    by (simp_all add: num_str_def digits.simps)
  have a: "action (options i) = None \<or> json i \<longrightarrow> versionKey i = imgKey i"
    by (auto simp: versionKey_def optionsString_def)
  have b: "action (options i) = Some (c # cs) \<and> \<not> json i \<longrightarrow>
        versionKey i = imgKey i @ spec_suffix c (options i)"
    by (simp add: versionKey_def optionsString_spec)
  have c: "options i = \<lparr>action = Some ''resize'', width = Some (NumV 100), height = Some (NumV 50),
                     cropX = None, cropY = None\<rparr> \<and> \<not> json i \<longrightarrow>
        versionKey i = imgKey i @ ''_ar_w100_h50''"
    by (simp add: versionKey_def optionsString_def n100 n50)
  have d: "imgKey (new_Img md5 ns e p) = ns @ '':'' @ [e] @ '':'' @ md5 (p_dir p @ p_filename p)"
    by (simp add: imgKey_def new_Img_def)
  have e: "p_dir p = p_dir p' \<and> p_filename p = p_filename p' \<and> p_options p = p_options p'
        \<and> p_json p = p_json p' \<longrightarrow>
        versionKey (new_Img md5 ns e p) = versionKey (new_Img md5 ns e p')"
  proof
    assume h: "p_dir p = p_dir p' \<and> p_filename p = p_filename p' \<and> p_options p = p_options p'
        \<and> p_json p = p_json p'"
    have "json (new_Img md5 ns e p) = json (new_Img md5 ns e p')"
      and "options (new_Img md5 ns e p) = options (new_Img md5 ns e p')"
      using h by (simp_all add: new_Img_def)
    then have "optionsString (new_Img md5 ns e p) = optionsString (new_Img md5 ns e p')"
      by (rule optionsString_cong)
    then show "versionKey (new_Img md5 ns e p) = versionKey (new_Img md5 ns e p')"
      using h by (simp add: versionKey_def imgKey_def new_Img_def)
  qed
  from a b c d e show ?thesis by blast
qed

text \<open>
  Claim C10, witness: the sample request, and the same request without an action.
\<close>

theorem versionKey_format_witness:
  "action (options sample_img) = Some ''resize'' \<and> \<not> json sample_img
   \<and> options sample_img = \<lparr>action = Some ''resize'', width = Some (NumV 100),
        height = Some (NumV 50), cropX = None, cropY = None\<rparr>
   \<and> versionKey sample_img = imgKey sample_img @ ''_ar_w100_h50''
   \<and> spec_suffix CHR ''r'' (options sample_img) = ''_ar_w100_h50''
   \<and> action (options (sample_img\<lparr>options := sample_options\<lparr>action := None\<rparr>\<rparr>)) = None
   \<and> versionKey (sample_img\<lparr>options := sample_options\<lparr>action := None\<rparr>\<rparr>) = ''img-server:d:ab''
   \<and> imgKey sample_img = ''img-server:d:ab''"
proof -
  have o: "options sample_img = \<lparr>action = Some ''resize'', width = Some (NumV 100),
        height = Some (NumV 50), cropX = None, cropY = None\<rparr>" "\<not> json sample_img"
    by (simp_all add: sample_img_def new_Img_def sample_parsed_def sample_options_def)
  have k: "imgKey sample_img = ''img-server:d:ab''"
    "imgKey (sample_img\<lparr>options := sample_options\<lparr>action := None\<rparr>\<rparr>) = ''img-server:d:ab''"
    by (simp_all add: imgKey_def sample_img_def new_Img_def sample_parsed_def)
  have s: "spec_suffix CHR ''r'' (options sample_img) = ''_ar_w100_h50''"
    by (simp add: o spec_suffix_def suffix_field_def num_str_def digits.simps)
  have a: "action (options sample_img) = Some ''resize''"
    "action (options (sample_img\<lparr>options := sample_options\<lparr>action := None\<rparr>\<rparr>)) = None"
    by (simp_all add: o)
  show ?thesis
    using o k s a
      versionKey_format [of sample_img "CHR ''r''" "''esize''" "\<lambda>s. s" "''img-server''"
        "CHR ''d''" sample_parsed sample_parsed]
      versionKey_format [of "sample_img\<lparr>options := sample_options\<lparr>action := None\<rparr>\<rparr>"
        "CHR ''r''" "''esize''" "\<lambda>s. s" "''img-server''" "CHR ''d''" sample_parsed sample_parsed]
    by simp
qed

end
